theory Spec2Isabelle
  imports Complex_Main
begin

section \<open>Constants of \<^verbatim>\<open>main.cpp\<close>\<close>

text \<open>
  The C++ type \<^verbatim>\<open>int\<close> is modelled by the unbounded \<^typ>\<open>int\<close>: signed overflow is
  undefined in C++ and no statement below relies on it. A value returned by
  \<^verbatim>\<open>std::rand()\<close> is a \<^typ>\<open>nat\<close>, since the C library promises a value between 0 and
  \<^verbatim>\<open>RAND_MAX\<close>. Drawing, sleeping and the text on the buttons are left out; everything
  the battle engine reads or writes is kept, and the messages it writes are kept as events.
\<close>

definition SCREEN_W :: int where "SCREEN_W = 320"
definition SCREEN_H :: int where "SCREEN_H = 240"
definition BBTN_W :: int where "BBTN_W = 152"
definition BBTN_H :: int where "BBTN_H = 48"
definition BBTN_GAP :: int where "BBTN_GAP = 6"
definition BBTN_LEFT_X :: int where "BBTN_LEFT_X = 6"
definition BBTN_RIGHT_X :: int where "BBTN_RIGHT_X = BBTN_LEFT_X + BBTN_W + BBTN_GAP"
definition BBTN_START_Y :: int where "BBTN_START_Y = 142"
definition RETREAT_HEAL :: int where "RETREAT_HEAL = 8"
definition MIN_DAMAGE :: int where "MIN_DAMAGE = 1"
definition PROJECTILE_STEP_PX :: int where "PROJECTILE_STEP_PX = 6"

section \<open>Data\<close>

text \<open>
  The structs of the source. Two fields of \<^verbatim>\<open>Move\<close> are renamed: \<^verbatim>\<open>name\<close> (also a field
  of \<^verbatim>\<open>Pokemon\<close>) is \<open>move_name\<close> and \<^verbatim>\<open>power\<close> (a constant of HOL) is \<open>move_power\<close>.
  The bounding box \<^verbatim>\<open>x, y, w, h\<close> of a \<^verbatim>\<open>Pokemon\<close> is \<open>box_x, box_y, box_w, box_h\<close>.
\<close>

record Move =
  move_name :: string
  move_power :: int
  accuracy :: int
  pp :: int

record Pokemon =
  name :: string
  maxHP :: int
  hp :: int
  attack :: int
  defense :: int
  moves :: "Move list"
  box_x :: int
  box_y :: int
  box_w :: int
  box_h :: int
  defending :: bool

record Player =
  label :: string
  isHuman :: bool
  pkmn :: Pokemon
  wins :: int

record Game =
  bank :: "Pokemon list"
  p1 :: Player
  p2 :: Player
  gamesPlayed :: int
  humanWins :: int
  cpuWins :: int
  difficulty :: int

section \<open>Arithmetic of the source language\<close>

text \<open>\<^verbatim>\<open>a / b\<close> on \<^verbatim>\<open>int\<close> truncates towards zero.\<close>

definition c_div :: "int \<Rightarrow> int \<Rightarrow> int" where
  "c_div a b = (if (a < 0) = (b < 0) then \<bar>a\<bar> div \<bar>b\<bar> else - (\<bar>a\<bar> div \<bar>b\<bar>))"

text \<open>
  The cast \<^verbatim>\<open>(int)d\<close> of a \<^verbatim>\<open>double\<close> drops the fraction, towards zero (\<open>c_trunc\<close>), when
  the result is a 32-bit \<^verbatim>\<open>int\<close>, from \<open>-2147483648\<close> to \<open>2147483647\<close>. Outside this range
  C++ leaves the cast undefined; \<open>c_cast\<close> then gives the value of the conversion
  instruction of x86-64, which is \<open>-2147483648\<close> for every operand out of range.
\<close>

definition c_trunc :: "real \<Rightarrow> int" where
  "c_trunc d = (if 0 \<le> d then \<lfloor>d\<rfloor> else \<lceil>d\<rceil>)"

definition c_cast :: "real \<Rightarrow> int" where
  "c_cast d = (if - 2147483649 < d \<and> d < 2147483648 then c_trunc d else - 2147483648)"

text \<open>
  \<^verbatim>\<open>randInt(a, b)\<close> is \<^verbatim>\<open>a + (std::rand() % (b - a + 1))\<close>; the argument \<open>r\<close> is the value
  that the call of \<^verbatim>\<open>std::rand()\<close> returns.
\<close>

definition randInt :: "int \<Rightarrow> int \<Rightarrow> nat \<Rightarrow> int" where
  "randInt a b r = a + int r mod (b - a + 1)"


section \<open>\<^verbatim>\<open>Pokemon::reset\<close> and \<^verbatim>\<open>Pokemon::fainted\<close>\<close>

definition reset :: "Pokemon \<Rightarrow> Pokemon" where
  "reset p = p\<lparr>hp := maxHP p, defending := False,
     moves := map (\<lambda>m. if pp m < 0 then m\<lparr>pp := 0\<rparr> else m) (moves p)\<rparr>"

definition fainted :: "Pokemon \<Rightarrow> bool" where
  "fainted p = (hp p \<le> 0)"

section \<open>\<^verbatim>\<open>Game::computeDamage\<close>\<close>

definition computeDamage ::
  "(real \<Rightarrow> real) \<Rightarrow> int \<Rightarrow> Pokemon \<Rightarrow> Pokemon \<Rightarrow> Move \<Rightarrow> nat \<Rightarrow> int" where
  "computeDamage fl dif att def m r =
    (let base0 = fl (real_of_int (attack att) - fl (real_of_int (defense def) * fl (45/100)));
         base = (if base0 < 1 then 1 else base0);
         raw0 = fl (base * fl (real_of_int (move_power m) / 20));
         mult = fl (real_of_int (randInt 85 100 r) / 100);
         raw1 = (if dif = 1 then fl (raw0 * fl (108/100)) else raw0);
         raw2 = fl (raw1 * mult);
         dmg = c_cast (fl (raw2 + 1/2))
     in if dmg < MIN_DAMAGE then MIN_DAMAGE else dmg)"



section \<open>\<^verbatim>\<open>Game::loadBank\<close>\<close>

definition mk :: "string \<Rightarrow> int \<Rightarrow> int \<Rightarrow> int \<Rightarrow> Move \<Rightarrow> Move \<Rightarrow> Move \<Rightarrow> Pokemon" where
  "mk n h atk dfn m1 m2 m3 =
     \<lparr>name = n, maxHP = h, hp = h, attack = atk, defense = dfn, moves = [m1, m2, m3],
      box_x = 0, box_y = 0, box_w = 48, box_h = 48, defending = False\<rparr>"

definition mkMove :: "string \<Rightarrow> int \<Rightarrow> int \<Rightarrow> int \<Rightarrow> Move" where
  "mkMove n pw acc p = \<lparr>move_name = n, move_power = pw, accuracy = acc, pp = p\<rparr>"

definition loadBank :: "Pokemon list" where
  "loadBank =
    [mk ''Pikachu'' 40 11 6 (mkMove ''Thunder'' 40 95 15) (mkMove ''Quick'' 40 100 20)
        (mkMove ''Growl'' 0 100 25),
     mk ''Charmander'' 45 10 7 (mkMove ''Ember'' 40 95 15) (mkMove ''Scratch'' 35 100 25)
        (mkMove ''Tail'' 0 100 25),
     mk ''Squirtle'' 50 9 9 (mkMove ''Water'' 40 95 15) (mkMove ''Tackle'' 40 100 25)
        (mkMove ''Withdraw'' 0 100 25),
     mk ''Bulbasaur'' 48 9 8 (mkMove ''Vine'' 45 100 15) (mkMove ''Tackle'' 40 100 25)
        (mkMove ''Seed'' 0 90 20),
     mk ''Gengar'' 55 12 6 (mkMove ''Shadow'' 50 90 12) (mkMove ''Lick'' 30 95 20)
        (mkMove ''Hypno'' 0 70 8),
     mk ''Onix'' 60 11 12 (mkMove ''RockT'' 50 90 15) (mkMove ''Tackle'' 40 100 25)
        (mkMove ''Harden'' 0 100 20)]"

section \<open>\<^verbatim>\<open>Game::runMatch\<close>: choosing an action\<close>

text \<open>
  Everything one pass of the battle loop takes from outside: where the screen was touched
  (read when the actor is human) and the value of each call of \<^verbatim>\<open>std::rand()\<close> the pass
  can make, in the order of the source: the roll \<^verbatim>\<open>r\<close> of the CPU, the second roll of the
  CPU on Hard, the accuracy roll, and the draw inside \<^verbatim>\<open>computeDamage\<close>.
\<close>

record TurnInput =
  touch_x :: int
  touch_y :: int
  rand_cpu :: nat
  rand_hard :: nat
  rand_acc :: nat
  rand_dmg :: nat

text \<open>The struct \<^verbatim>\<open>Btn\<close> without its label, and the four buttons in the order they are pushed.\<close>

record Btn =
  btn_x :: int
  btn_y :: int
  btn_w :: int
  btn_h :: int
  btn_id :: int

definition getY :: "int \<Rightarrow> int" where
  "getY row = BBTN_START_Y + row * (BBTN_H + BBTN_GAP)"

definition btns :: "Btn list" where
  "btns =
    [\<lparr>btn_x = BBTN_LEFT_X, btn_y = getY 0, btn_w = BBTN_W, btn_h = BBTN_H, btn_id = 0\<rparr>,
     \<lparr>btn_x = BBTN_RIGHT_X, btn_y = getY 0, btn_w = BBTN_W, btn_h = BBTN_H, btn_id = 1\<rparr>,
     \<lparr>btn_x = BBTN_LEFT_X, btn_y = getY 1, btn_w = BBTN_W, btn_h = BBTN_H, btn_id = 2\<rparr>,
     \<lparr>btn_x = BBTN_RIGHT_X, btn_y = getY 1, btn_w = BBTN_W, btn_h = BBTN_H, btn_id = 3\<rparr>]"

text \<open>
  The search for the pressed button: the first button that holds the touch, \<open>None\<close>
  when the loop ends with \<^verbatim>\<open>found\<close> still false.
\<close>

fun pressed :: "Btn list \<Rightarrow> int \<Rightarrow> int \<Rightarrow> int option" where
  "pressed [] tx ty = None"
| "pressed (b # bs) tx ty =
     (if tx \<ge> btn_x b \<and> tx \<le> btn_x b + btn_w b \<and> ty \<ge> btn_y b \<and> ty \<le> btn_y b + btn_h b
      then Some (btn_id b) else pressed bs tx ty)"

text \<open>
  The loop of the Hard policy: \<^verbatim>\<open>best\<close> starts at 0 and moves to \<open>i\<close> when move \<open>i\<close> has
  more power than move \<^verbatim>\<open>best\<close> and has PP left.
\<close>

definition hardBest :: "Move list \<Rightarrow> nat" where
  "hardBest ms =
     fold (\<lambda>i best. if move_power (ms ! i) > move_power (ms ! best) \<and> pp (ms ! i) > 0
                     then i else best) [0..<length ms] 0"

definition cpuChoice :: "int \<Rightarrow> Move list \<Rightarrow> TurnInput \<Rightarrow> int" where
  "cpuChoice dif ms inp =
    (let r = randInt 1 100 (rand_cpu inp) in
     if dif = 0 then
       (if r \<le> 35 then 0 else if r \<le> 70 then 1 else if r \<le> 85 then 2 else 3)
     else
       (let best = hardBest ms in
        if randInt 1 100 (rand_hard inp) \<le> 85 then int best else 3))"

definition actorOf :: "Game \<Rightarrow> bool \<Rightarrow> Player" where
  "actorOf g p1Turn = (if p1Turn then p1 g else p2 g)"

definition targetOf :: "Game \<Rightarrow> bool \<Rightarrow> Player" where
  "targetOf g p1Turn = (if p1Turn then p2 g else p1 g)"

definition setActor :: "Game \<Rightarrow> bool \<Rightarrow> Player \<Rightarrow> Game" where
  "setActor g p1Turn pl = (if p1Turn then g\<lparr>p1 := pl\<rparr> else g\<lparr>p2 := pl\<rparr>)"

definition setTarget :: "Game \<Rightarrow> bool \<Rightarrow> Player \<Rightarrow> Game" where
  "setTarget g p1Turn pl = (if p1Turn then g\<lparr>p2 := pl\<rparr> else g\<lparr>p1 := pl\<rparr>)"

text \<open>
  The value of \<^verbatim>\<open>chosen\<close> when the action is processed; \<open>None\<close> is the \<^verbatim>\<open>continue\<close> of a
  touch outside every button.
\<close>

definition chooseAction :: "Game \<Rightarrow> bool \<Rightarrow> TurnInput \<Rightarrow> int option" where
  "chooseAction g p1Turn inp =
    (if isHuman (actorOf g p1Turn) then pressed btns (touch_x inp) (touch_y inp)
     else Some (cpuChoice (difficulty g) (moves (pkmn (actorOf g p1Turn))) inp))"

section \<open>\<^verbatim>\<open>Game::runMatch\<close>: processing the action\<close>

text \<open>
  The projectile loop. It ends with a hit at the first position that overlaps the box of
  the target, and without one when the projectile has left the screen. \<open>fromP1\<close> is
  \<^verbatim>\<open>actor == &p1\<close>, which fixes \<^verbatim>\<open>dir\<close>.
\<close>

function projectile :: "bool \<Rightarrow> int \<Rightarrow> int \<Rightarrow> Pokemon \<Rightarrow> bool" where
  "projectile fromP1 projX projY tgt =
    (if projX > 0 \<and> projX < SCREEN_W then
       (if \<not> (projX + 8 < box_x tgt \<or> projX > box_x tgt + box_w tgt \<or>
               (projY - 4) + 8 < box_y tgt \<or> projY - 4 > box_y tgt + box_h tgt)
        then True
        else projectile fromP1 (projX + (if fromP1 then 1 else - 1) * PROJECTILE_STEP_PX)
               projY tgt)
     else False)"
  by pat_completeness auto
termination
  by (relation "measure (\<lambda>(fromP1, projX, projY, tgt).
        if fromP1 then nat (SCREEN_W - projX) else nat projX)")
     (auto simp: SCREEN_W_def PROJECTILE_STEP_PX_def)

text \<open>Lines 684 to 688: the damage a hit does to the target.\<close>

definition applyDamage :: "int \<Rightarrow> Pokemon \<Rightarrow> Pokemon" where
  "applyDamage dmg0 t =
    (let dmg = (if defending t then c_div (dmg0 + 1) 2 else dmg0);
         t1 = (if defending t then t\<lparr>defending := False\<rparr> else t);
         h = hp t1 - dmg
     in t1\<lparr>hp := (if h < 0 then 0 else h)\<rparr>)"

text \<open>\<^verbatim>\<open>mv.pp--\<close> for the move at index \<open>i\<close>.\<close>

definition usePP :: "nat \<Rightarrow> Pokemon \<Rightarrow> Pokemon" where
  "usePP i p = p\<lparr>moves := (moves p)[i := (moves p ! i)\<lparr>pp := pp (moves p ! i) - 1\<rparr>]\<rparr>"

text \<open>An attack move that has PP left: lines 625 to 702.\<close>

definition attackMove :: "(real \<Rightarrow> real) \<Rightarrow> Game \<Rightarrow> bool \<Rightarrow> nat \<Rightarrow> TurnInput \<Rightarrow> Game" where
  "attackMove fl g p1Turn i inp =
    (let actor = actorOf g p1Turn; target = targetOf g p1Turn;
         mv = moves (pkmn actor) ! i;
         projX = box_x (pkmn actor) + (if p1Turn then box_w (pkmn actor) else - 8);
         projY = box_y (pkmn actor) + c_div (box_h (pkmn actor)) 2;
         roll = randInt 1 100 (rand_acc inp)
     in if roll > accuracy mv then g
        else if projectile p1Turn projX projY (pkmn target) then
          (let dmg = computeDamage fl (difficulty g) (pkmn actor) (pkmn target) mv (rand_dmg inp);
               g1 = setTarget g p1Turn (target\<lparr>pkmn := applyDamage dmg (pkmn target)\<rparr>)
           in setActor g1 p1Turn (actor\<lparr>pkmn := usePP i (pkmn actor)\<rparr>))
        else setActor g p1Turn (actor\<lparr>pkmn := usePP i (pkmn actor)\<rparr>))"

text \<open>
  The move at index \<open>i\<close> of the actor is resolved (lines 610 to 707): a utility move, an
  attack move, and at the end the actor's own defending flag.
\<close>

definition resolveMove :: "(real \<Rightarrow> real) \<Rightarrow> Game \<Rightarrow> bool \<Rightarrow> nat \<Rightarrow> TurnInput \<Rightarrow> Game" where
  "resolveMove fl g p1Turn i inp =
    (let actor = actorOf g p1Turn;
         mv = moves (pkmn actor) ! i;
         g1 = (if move_power mv = 0 then
                 (if pp mv \<le> 0 then g
                  else setActor g p1Turn
                         (actor\<lparr>pkmn := usePP i ((pkmn actor)\<lparr>defending := True\<rparr>)\<rparr>))
               else
                 (if pp mv \<le> 0 then g else attackMove fl g p1Turn i inp));
         actor1 = actorOf g1 p1Turn
     in if defending (pkmn actor1) \<and> move_power mv > 0
        then setActor g1 p1Turn (actor1\<lparr>pkmn := (pkmn actor1)\<lparr>defending := False\<rparr>\<rparr>)
        else g1)"

text \<open>
  Whether the projectile loop of the move at index \<open>i\<close> makes a pass: the move is an attack
  with PP left, the accuracy roll has not failed, and the projectile starts on the screen.
  Every pass of that loop reads \<^verbatim>\<open>btns[chosen]\<close> to highlight the chosen button (line 658).
\<close>

definition animates :: "Game \<Rightarrow> bool \<Rightarrow> nat \<Rightarrow> TurnInput \<Rightarrow> bool" where
  "animates g p1Turn i inp =
    (let actor = actorOf g p1Turn;
         mv = moves (pkmn actor) ! i;
         projX = box_x (pkmn actor) + (if p1Turn then box_w (pkmn actor) else - 8)
     in move_power mv \<noteq> 0 \<and> 0 < pp mv \<and> randInt 1 100 (rand_acc inp) \<le> accuracy mv \<and>
        projX > 0 \<and> projX < SCREEN_W)"

text \<open>
  What the block "Process chosen action" does (lines 596 to 710). Two reads can leave
  their vector, and outside it neither has a defined behaviour in C++; the model answers
  \<open>BadIndex\<close> for both: the read of \<^verbatim>\<open>moves[mIdx]\<close> (line 608), and the read of
  \<^verbatim>\<open>btns[chosen]\<close> in a pass of the projectile loop (line 658), which happens when the
  loop makes a pass and \<^verbatim>\<open>chosen\<close> is not the index of a button.
\<close>

datatype action = Retreated Game | Resolved Game | BadIndex

text \<open>Lines 606 and 607: \<^verbatim>\<open>mIdx\<close>, from \<^verbatim>\<open>chosen\<close> and the size \<open>n\<close> of the vector of moves.\<close>

definition moveIndex :: "int \<Rightarrow> int \<Rightarrow> int" where
  "moveIndex chosen n = (if chosen \<ge> n then 0 else chosen)"

definition processAction ::
  "(real \<Rightarrow> real) \<Rightarrow> Game \<Rightarrow> bool \<Rightarrow> int \<Rightarrow> TurnInput \<Rightarrow> action" where
  "processAction fl g p1Turn chosen inp =
    (let actor = actorOf g p1Turn; n = int (length (moves (pkmn actor))) in
     if chosen = 3 then
       (let h = hp (pkmn actor) + RETREAT_HEAL;
            h1 = (if h > maxHP (pkmn actor) then maxHP (pkmn actor) else h)
        in Retreated (setActor g p1Turn (actor\<lparr>pkmn := (pkmn actor)\<lparr>hp := h1\<rparr>\<rparr>)))
     else if chosen \<noteq> - 1 then
       (let mIdx = moveIndex chosen n in
        if mIdx < 0 \<or> mIdx \<ge> n then BadIndex
        else if animates g p1Turn (nat mIdx) inp \<and>
                (chosen < 0 \<or> chosen \<ge> int (length btns))
        then BadIndex
        else Resolved (resolveMove fl g p1Turn (nat mIdx) inp))
     else Resolved g)"




section \<open>\<^verbatim>\<open>Game::runMatch\<close>: the battle loop and the end of the match\<close>

text \<open>
  One pass of the loop body. \<open>Return\<close> is a \<^verbatim>\<open>return\<close> from inside the loop, \<open>Continue\<close>
  carries the state and \<^verbatim>\<open>p1Turn\<close> of the next pass. Two reads of the display code can
  leave their vector and are kept for that reason: the labels of the buttons read the
  first three moves of the actor (lines 518 to 524), and the highlight of the CPU's choice
  reads \<^verbatim>\<open>btns[chosen]\<close> (line 586). Outside the vector neither has a defined behaviour.
\<close>

datatype step = Return Game bool | Continue Game bool | OutOfBounds

definition turn :: "(real \<Rightarrow> real) \<Rightarrow> Game \<Rightarrow> bool \<Rightarrow> TurnInput \<Rightarrow> step" where
  "turn fl g p1Turn inp =
    (if length (moves (pkmn (actorOf g p1Turn))) < 3 then OutOfBounds
     else case chooseAction g p1Turn inp of
            None \<Rightarrow> Continue g p1Turn
          | Some chosen \<Rightarrow>
              if \<not> isHuman (actorOf g p1Turn) \<and> chosen \<noteq> - 1 \<and>
                 (chosen < 0 \<or> chosen \<ge> int (length btns))
              then OutOfBounds
              else
                (case processAction fl g p1Turn chosen inp of
                   Retreated g' \<Rightarrow> Return g' False
                 | Resolved g' \<Rightarrow> Continue g' (\<not> p1Turn)
                 | BadIndex \<Rightarrow> OutOfBounds))"


text \<open>
  The loop \<^verbatim>\<open>while (!p1.pkmn.fainted() && !p2.pkmn.fainted())\<close> over the inputs of its
  passes. The loop waits for a touch and may never end: \<open>None\<close> says that the inputs
  are used up and the loop is still running.
\<close>

datatype loop_end = LoopReturn Game bool | LoopExit Game | LoopFault

fun battleLoop :: "(real \<Rightarrow> real) \<Rightarrow> Game \<Rightarrow> bool \<Rightarrow> TurnInput list \<Rightarrow> loop_end option" where
  "battleLoop fl g p1Turn [] =
     (if \<not> fainted (pkmn (p1 g)) \<and> \<not> fainted (pkmn (p2 g)) then None
      else Some (LoopExit g))"
| "battleLoop fl g p1Turn (inp # rest) =
     (if \<not> fainted (pkmn (p1 g)) \<and> \<not> fainted (pkmn (p2 g)) then
        (case turn fl g p1Turn inp of
           Return g' b \<Rightarrow> Some (LoopReturn g' b)
         | Continue g' t' \<Rightarrow> battleLoop fl g' t' rest
         | OutOfBounds \<Rightarrow> Some LoopFault)
      else Some (LoopExit g))"

text \<open>Lines 719 to 731: the result of a battle that the loop has left.\<close>

definition endOfBattle :: "Game \<Rightarrow> Game" where
  "endOfBattle g =
    (let g1 =
       (if fainted (pkmn (p1 g)) \<and> fainted (pkmn (p2 g)) then g
        else if fainted (pkmn (p1 g)) then
          (if isHuman (p2 g) then g\<lparr>humanWins := humanWins g + 1\<rparr>
           else g\<lparr>cpuWins := cpuWins g + 1\<rparr>)
        else if fainted (pkmn (p2 g)) then
          (if isHuman (p1 g) then g\<lparr>humanWins := humanWins g + 1\<rparr>
           else g\<lparr>cpuWins := cpuWins g + 1\<rparr>)
        else g)
     in g1\<lparr>gamesPlayed := gamesPlayed g1 + 1\<rparr>)"

text \<open>Line 488: both defending flags are cleared before the loop.\<close>

definition startOfMatch :: "Game \<Rightarrow> Game" where
  "startOfMatch g = g\<lparr>p1 := (p1 g)\<lparr>pkmn := (pkmn (p1 g))\<lparr>defending := False\<rparr>\<rparr>,
                      p2 := (p2 g)\<lparr>pkmn := (pkmn (p2 g))\<lparr>defending := False\<rparr>\<rparr>\<rparr>"

text \<open>
  \<^verbatim>\<open>runMatch\<close>: the inputs of the passes of the loop and the height \<open>ry\<close> of the touch
  that answers "Play again?". The result is the state of the game and the value returned,
  \<open>OutOfRange\<close> when a pass has read outside a vector, and \<open>None\<close> when the loop has not
  ended on these inputs.
\<close>

datatype fault = OutOfRange

definition runMatch ::
  "(real \<Rightarrow> real) \<Rightarrow> Game \<Rightarrow> TurnInput list \<Rightarrow> int \<Rightarrow> (fault + Game \<times> bool) option" where
  "runMatch fl g inps ry =
    (case battleLoop fl (startOfMatch g) True inps of
       None \<Rightarrow> None
     | Some LoopFault \<Rightarrow> Some (Inl OutOfRange)
     | Some (LoopReturn g' b) \<Rightarrow> Some (Inr (g', b))
     | Some (LoopExit g') \<Rightarrow> Some (Inr (endOfBattle g', ry < c_div SCREEN_H 2)))"

text \<open>\<^verbatim>\<open>mainMenuLoop\<close>, lines 901 to 905: a rematch resets both creatures.\<close>

definition rematch :: "Game \<Rightarrow> Game" where
  "rematch g = g\<lparr>p1 := (p1 g)\<lparr>pkmn := reset (pkmn (p1 g))\<rparr>,
                 p2 := (p2 g)\<lparr>pkmn := reset (pkmn (p2 g))\<rparr>\<rparr>"

section \<open>A match of the bank's first two creatures\<close>

text \<open>
  The states and inputs the theorems are tried on. \<open>assigned i x y\<close> is what
  \<^verbatim>\<open>assignPlayers\<close> makes of entry \<open>i\<close> of the bank: a copy that is reset and placed at
  \<open>(x, y)\<close>. \<open>exampleGame dif\<close> is the game \<^verbatim>\<open>assignPlayers\<close> leaves when the draws are
  0 (Player 1 is human), 0 (Pikachu) and 1 (Charmander), at difficulty \<open>dif\<close>.
\<close>

definition assigned :: "nat \<Rightarrow> int \<Rightarrow> int \<Rightarrow> Pokemon" where
  "assigned i x y = (reset (loadBank ! i))\<lparr>box_x := x, box_y := y\<rparr>"

definition exampleGame :: "int \<Rightarrow> Game" where
  "exampleGame dif =
    \<lparr>bank = loadBank,
     p1 = \<lparr>label = ''Player 1'', isHuman = True, pkmn = assigned 0 40 60, wins = 0\<rparr>,
     p2 = \<lparr>label = ''Player 2'', isHuman = False, pkmn = assigned 1 220 60, wins = 0\<rparr>,
     gamesPlayed = 0, humanWins = 0, cpuWins = 0, difficulty = dif\<rparr>"

text \<open>
  A touch at \<open>(tx, ty)\<close>, with \<open>acc\<close> the value \<^verbatim>\<open>std::rand()\<close> gives the accuracy roll; the
  CPU rolls are 1 and the variance of the damage is 100 percent.
\<close>

definition press :: "int \<Rightarrow> int \<Rightarrow> nat \<Rightarrow> TurnInput" where
  "press tx ty acc =
    \<lparr>touch_x = tx, touch_y = ty, rand_cpu = 0, rand_hard = 0, rand_acc = acc, rand_dmg = 15\<rparr>"

text \<open>A creature whose move \<open>i\<close> has \<open>v\<close> PP left, and one with \<open>v\<close> health.\<close>

definition withPP :: "nat \<Rightarrow> int \<Rightarrow> Pokemon \<Rightarrow> Pokemon" where
  "withPP i v p = p\<lparr>moves := (moves p)[i := (moves p ! i)\<lparr>pp := v\<rparr>]\<rparr>"

definition withHP :: "int \<Rightarrow> Pokemon \<Rightarrow> Pokemon" where
  "withHP v p = p\<lparr>hp := v\<rparr>"

definition withP1 :: "Pokemon \<Rightarrow> Game \<Rightarrow> Game" where
  "withP1 p g = g\<lparr>p1 := (p1 g)\<lparr>pkmn := p\<rparr>\<rparr>"

definition withP2 :: "Pokemon \<Rightarrow> Game \<Rightarrow> Game" where
  "withP2 p g = g\<lparr>p2 := (p2 g)\<lparr>pkmn := p\<rparr>\<rparr>"

text \<open>
  The match after Thunder and Ember have hit once each, after five turns of Thunder and
  Ember, and the two games the corner cases are tried on: Thunder without PP, and
  Charmander drawn below the path of the projectile.
\<close>

definition afterTwoTurns :: Game where
  "afterTwoTurns =
    withP2 (withHP 29 (withPP 0 14 (assigned 1 220 60)))
      (withP1 (withHP 25 (withPP 0 14 (assigned 0 40 60))) (exampleGame 0))"

definition afterRetreat :: Game where
  "afterRetreat = withP1 (withHP 33 (pkmn (p1 afterTwoTurns))) afterTwoTurns"

definition afterFiveTurns :: Game where
  "afterFiveTurns =
    withP2 (withHP 0 (withPP 0 13 (assigned 1 220 60)))
      (withP1 (withHP 10 (withPP 0 12 (assigned 0 40 60))) (exampleGame 0))"


definition charmanderAway :: Game where
  "charmanderAway = withP2 ((assigned 1 220 60)\<lparr>box_y := 200\<rparr>) (exampleGame 0)"

section \<open>The Hard policy in the words of the specification\<close>

text \<open>
  What the specification says the Hard policy picks, to compare \<open>hardBest\<close> with: among
  the moves with PP above 0, the first one of highest power; \<open>None\<close> when no move has PP
  left. This definition follows the specification, not the source.
\<close>

definition strongestWithPP :: "Move list \<Rightarrow> nat option" where
  "strongestWithPP ms =
    (let cand = filter (\<lambda>i. 0 < pp (ms ! i)) [0..<length ms] in
     case filter (\<lambda>i. list_all (\<lambda>j. move_power (ms ! j) \<le> move_power (ms ! i)) cand) cand of
       [] \<Rightarrow> None
     | b # _ \<Rightarrow> Some b)"

section \<open>A relation for the proofs\<close>

text \<open>
  \<open>sameSession g g'\<close>: the session counters and the human flags of the two seats are the
  same in \<open>g\<close> and \<open>g'\<close>.
\<close>

definition sameSession :: "Game \<Rightarrow> Game \<Rightarrow> bool" where
  "sameSession g g' =
    (gamesPlayed g' = gamesPlayed g \<and> humanWins g' = humanWins g \<and> cpuWins g' = cpuWins g \<and>
     isHuman (p1 g') = isHuman (p1 g) \<and> isHuman (p2 g') = isHuman (p2 g))"

section \<open>Properties of \<^verbatim>\<open>computeDamage\<close>\<close>


text \<open>
  Claim C6. Whatever the attacker, the defender, the move, the difficulty, the value drawn
  by \<^verbatim>\<open>std::rand()\<close> and the rounding of the floating-point operations are,
  \<^verbatim>\<open>computeDamage\<close> returns an integer that is at least 1: its last statement raises any
  smaller value to \<^verbatim>\<open>MIN_DAMAGE\<close>. This holds for every power, so for every power that
  is not negative.
\<close>

theorem computeDamage_at_least_one: "1 \<le> computeDamage fl dif att def m r"
  by (simp add: computeDamage_def Let_def MIN_DAMAGE_def)






text \<open>
  The two scenarios of the specification: attack 11 against defense 6 with power 40 at a
  variance of 100 percent does 17 on Easy and 18 on Hard.
\<close>

lemma computeDamage_scenarios:
  "computeDamage id 0 (assigned 0 40 60) (assigned 0 220 60) (mkMove ''Thunder'' 40 95 15) 15 = 17
   \<and> computeDamage id 1 (assigned 0 40 60) (assigned 0 220 60) (mkMove ''Thunder'' 40 95 15) 15
       = 18"
  by (simp add: computeDamage_def assigned_def loadBank_def mk_def mkMove_def reset_def
        randInt_def c_cast_def c_trunc_def MIN_DAMAGE_def)













section \<open>Properties of \<^verbatim>\<open>reset\<close>\<close>

text \<open>
  Claim C10. \<^verbatim>\<open>reset()\<close> changes the health (to the maximum), the defending flag (to
  false) and the PP of each move (a negative PP to 0) and nothing else: every other field
  of the creature and of its moves is as before. A PP that is not negative is left as it
  is, so when no PP is negative the moves after the reset of a rematch are the moves the
  last match left, with their used PP.
\<close>

theorem reset_frame:
  "reset p = p\<lparr>hp := maxHP p, defending := False,
               moves := map (\<lambda>m. m\<lparr>pp := max 0 (pp m)\<rparr>) (moves p)\<rparr>
   \<and> ((\<forall>m \<in> set (moves p). 0 \<le> pp m) \<longrightarrow> moves (reset p) = moves p)
   \<and> ((\<forall>m \<in> set (moves (pkmn (p1 g))). 0 \<le> pp m) \<longrightarrow>
         moves (pkmn (p1 (rematch g))) = moves (pkmn (p1 g)))
   \<and> ((\<forall>m \<in> set (moves (pkmn (p2 g))). 0 \<le> pp m) \<longrightarrow>
         moves (pkmn (p2 (rematch g))) = moves (pkmn (p2 g)))"
proof -
  have e: "(\<lambda>m. if pp m < 0 then m\<lparr>pp := 0\<rparr> else m) = (\<lambda>m::Move. m\<lparr>pp := max 0 (pp m)\<rparr>)"
    by (rule ext) (simp add: max_def)
  have a: "reset p = p\<lparr>hp := maxHP p, defending := False,
               moves := map (\<lambda>m. m\<lparr>pp := max 0 (pp m)\<rparr>) (moves p)\<rparr>" for p
    by (simp add: reset_def e)
  have b: "(\<forall>m \<in> set (moves p). 0 \<le> pp m) \<longrightarrow> moves (reset p) = moves p" for p
  proof
    assume h: "\<forall>m \<in> set (moves p). 0 \<le> pp m"
    have "map (\<lambda>m. if pp m < 0 then m\<lparr>pp := 0\<rparr> else m) (moves p) = moves p"
      by (rule map_idI) (use h in auto)
    then show "moves (reset p) = moves p" by (simp add: reset_def)
  qed
  from a b [of p] b [of "pkmn (p1 g)"] b [of "pkmn (p2 g)"] show ?thesis
    by (simp add: rematch_def)
qed

text \<open>
  The rematch after the five turns that made Charmander faint: the health is back at 40 and
  45, and Thunder and Ember keep the 12 and 13 PP that the match left. A move with PP
  \<open>-1\<close> is reset to PP 0.
\<close>

theorem reset_frame_witness:
  "map pp (moves (pkmn (p1 afterFiveTurns))) = [12, 20, 25]
   \<and> map pp (moves (pkmn (p2 afterFiveTurns))) = [13, 25, 25]
   \<and> map pp (moves (pkmn (p1 (rematch afterFiveTurns)))) = [12, 20, 25]
   \<and> map pp (moves (pkmn (p2 (rematch afterFiveTurns)))) = [13, 25, 25]
   \<and> hp (pkmn (p1 afterFiveTurns)) = 10 \<and> hp (pkmn (p1 (rematch afterFiveTurns))) = 40
   \<and> hp (pkmn (p2 afterFiveTurns)) = 0 \<and> hp (pkmn (p2 (rematch afterFiveTurns))) = 45
   \<and> moves (reset ((assigned 0 40 60)\<lparr>moves := [mkMove ''Thunder'' 40 95 (- 1)]\<rparr>))
        = [mkMove ''Thunder'' 40 95 0]"
proof -
  have h: "\<forall>m \<in> set (moves (pkmn (p1 afterFiveTurns))). 0 \<le> pp m"
    "\<forall>m \<in> set (moves (pkmn (p2 afterFiveTurns))). 0 \<le> pp m"
    by code_simp+
  have v: "map pp (moves (pkmn (p1 afterFiveTurns))) = [12, 20, 25]"
    "map pp (moves (pkmn (p2 afterFiveTurns))) = [13, 25, 25]"
    "hp (pkmn (p1 afterFiveTurns)) = 10" "hp (pkmn (p1 (rematch afterFiveTurns))) = 40"
    "hp (pkmn (p2 afterFiveTurns)) = 0" "hp (pkmn (p2 (rematch afterFiveTurns))) = 45"
    "moves (reset ((assigned 0 40 60)\<lparr>moves := [mkMove ''Thunder'' 40 95 (- 1)]\<rparr>))
        = [mkMove ''Thunder'' 40 95 0]"
    by code_simp+
  from reset_frame [of "pkmn (p1 afterFiveTurns)" afterFiveTurns] h v
  show ?thesis by simp
qed

section \<open>The chosen action and the index of the move\<close>

lemma pressed_btns_range: "pressed btns tx ty = Some c \<Longrightarrow> c \<in> {0, 1, 2, 3}"
  by (auto simp: btns_def split: if_splits)

lemma fold_best_bound:
  "b < n \<Longrightarrow> set xs \<subseteq> {..<n} \<Longrightarrow>
   fold (\<lambda>i best. if P i best then i else best) xs b < (n::nat)"
  by (induction xs arbitrary: b) auto

lemma hardBest_bound: "ms \<noteq> [] \<Longrightarrow> hardBest ms < length ms"
  unfolding hardBest_def by (rule fold_best_bound) auto

lemma cpuChoice_range:
  "ms \<noteq> [] \<Longrightarrow>
   cpuChoice dif ms inp = 3 \<or>
   (0 \<le> cpuChoice dif ms inp \<and> cpuChoice dif ms inp < int (length ms) \<or>
    cpuChoice dif ms inp \<in> {0, 1, 2})"
  using hardBest_bound [of ms] by (auto simp: cpuChoice_def Let_def)

lemma chooseAction_range:
  assumes "3 \<le> length (moves (pkmn (actorOf g t)))" and "chooseAction g t inp = Some c"
  shows "c = 3 \<or> (0 \<le> c \<and> c < int (length (moves (pkmn (actorOf g t)))))"
proof (cases "isHuman (actorOf g t)")
  case True
  with assms(2) have "pressed btns (touch_x inp) (touch_y inp) = Some c"
    by (simp add: chooseAction_def)
  then have "c \<in> {0, 1, 2, 3}"
    by (rule pressed_btns_range)
  with assms(1) show ?thesis by auto
next
  case False
  from assms(1) have ne: "moves (pkmn (actorOf g t)) \<noteq> []" by auto
  from False assms(2) have c: "c = cpuChoice (difficulty g) (moves (pkmn (actorOf g t))) inp"
    by (simp add: chooseAction_def)
  from cpuChoice_range [OF ne, of "difficulty g" inp] assms(1) show ?thesis
    unfolding c by auto
qed

lemma chooseAction_nonneg: "chooseAction g t inp = Some c \<Longrightarrow> 0 \<le> c"
proof (cases "isHuman (actorOf g t)")
  case True
  assume "chooseAction g t inp = Some c"
  with True have "pressed btns (touch_x inp) (touch_y inp) = Some c"
    by (simp add: chooseAction_def)
  then have "c \<in> {0, 1, 2, 3}" by (rule pressed_btns_range)
  then show ?thesis by auto
next
  case False
  assume "chooseAction g t inp = Some c"
  with False have "c = cpuChoice (difficulty g) (moves (pkmn (actorOf g t))) inp"
    by (simp add: chooseAction_def)
  then show ?thesis by (simp add: cpuChoice_def Let_def)
qed

lemma processAction_of_move:
  assumes len: "3 \<le> length (moves (pkmn (actorOf g t)))"
    and ch: "chooseAction g t inp = Some c" and c3: "c \<noteq> 3" and c4: "c < 4"
  shows "moveIndex c (int (length (moves (pkmn (actorOf g t))))) = c
    \<and> processAction fl g t c inp = Resolved (resolveMove fl g t (nat c) inp)"
proof -
  from chooseAction_range [OF len ch] c3
  have r: "0 \<le> c" "c < int (length (moves (pkmn (actorOf g t))))" by auto
  then show ?thesis
    using c3 c4 by (simp add: processAction_def moveIndex_def Let_def btns_def)
qed

lemma turn_of_move:
  assumes len: "3 \<le> length (moves (pkmn (actorOf g t)))"
    and ch: "chooseAction g t inp = Some c" and c3: "c \<noteq> 3" and c4: "c < 4"
  shows "turn fl g t inp = Continue (resolveMove fl g t (nat c) inp) (\<not> t)"
proof -
  have "0 \<le> c" using ch by (rule chooseAction_nonneg)
  with processAction_of_move [OF len ch c3 c4, of fl] len ch c4 show ?thesis
    by (simp add: turn_def btns_def)
qed

lemma turn_of_retreat:
  assumes len: "3 \<le> length (moves (pkmn (actorOf g t)))"
    and ch: "chooseAction g t inp = Some 3"
  shows "turn fl g t inp =
    Return (setActor g t ((actorOf g t)\<lparr>pkmn := (pkmn (actorOf g t))
       \<lparr>hp := min (hp (pkmn (actorOf g t)) + 8) (maxHP (pkmn (actorOf g t)))\<rparr>\<rparr>)) False"
  using len ch
  by (simp add: turn_def btns_def processAction_def Let_def RETREAT_HEAL_def min_def)



text \<open>
  Where the Hard policy does what claim C3 says: when move 0 has PP left, \<^verbatim>\<open>best\<close> ends at
  a move with PP left that no move with PP left exceeds in power, and no earlier move
  with PP left reaches its power; it is the move the specification describes. The second
  half of the policy is the definition: the chosen action is \<^verbatim>\<open>best\<close> for a roll up to
  85 and 3, the retreat, above.
\<close>

lemma fold_best_step:
  "fold f [0..<Suc k] (a::nat) = f k (fold f [0..<k] a)"
  by simp

lemma hardBest_prefix:
  assumes p0: "0 < pp (ms ! 0)"
  shows "fold (\<lambda>i best. if move_power (ms ! i) > move_power (ms ! best) \<and> pp (ms ! i) > 0
                          then i else best) [0..<Suc k] 0 = b \<Longrightarrow>
    b < Suc k \<and> 0 < pp (ms ! b)
    \<and> (\<forall>i < Suc k. 0 < pp (ms ! i) \<longrightarrow> move_power (ms ! i) \<le> move_power (ms ! b))
    \<and> (\<forall>i < b. 0 < pp (ms ! i) \<longrightarrow> move_power (ms ! i) < move_power (ms ! b))"
proof (induction k arbitrary: b)
  case 0
  then have "b = 0" by (simp split: if_splits)
  with p0 show ?case by simp
next
  case (Suc k)
  let ?f = "\<lambda>i best. if move_power (ms ! i) > move_power (ms ! best) \<and> pp (ms ! i) > 0
                       then i else best"
  define b0 where "b0 = fold ?f [0..<Suc k] 0"
  then have "fold ?f [0..<Suc k] 0 = b0" by simp
  then have ih: "b0 < Suc k \<and> 0 < pp (ms ! b0)
    \<and> (\<forall>i < Suc k. 0 < pp (ms ! i) \<longrightarrow> move_power (ms ! i) \<le> move_power (ms ! b0))
    \<and> (\<forall>i < b0. 0 < pp (ms ! i) \<longrightarrow> move_power (ms ! i) < move_power (ms ! b0))"
    by (rule Suc.IH)
  have "fold ?f [0..<Suc (Suc k)] 0 = ?f (Suc k) b0"
    unfolding b0_def by (rule fold_best_step)
  with Suc.prems have b: "b = ?f (Suc k) b0" by simp
  show ?case
  proof (cases "move_power (ms ! Suc k) > move_power (ms ! b0) \<and> pp (ms ! Suc k) > 0")
    case True
    with b have e: "b = Suc k" by simp
    from True ih show ?thesis unfolding e
      by (auto simp: less_Suc_eq) 
  next
    case False
    with b have e: "b = b0" by simp
    from False ih show ?thesis unfolding e
      by (auto simp: less_Suc_eq)
  qed
qed

lemma hardBest_with_pp:
  assumes ne: "ms \<noteq> []" and p0: "0 < pp (ms ! 0)"
  shows "hardBest ms < length ms \<and> 0 < pp (ms ! hardBest ms)
    \<and> (\<forall>i < length ms. 0 < pp (ms ! i) \<longrightarrow> move_power (ms ! i) \<le> move_power (ms ! hardBest ms))
    \<and> (\<forall>i < hardBest ms. 0 < pp (ms ! i) \<longrightarrow> move_power (ms ! i) < move_power (ms ! hardBest ms))"
proof -
  from ne obtain k where k: "length ms = Suc k" by (cases ms) auto
  have "fold (\<lambda>i best. if move_power (ms ! i) > move_power (ms ! best) \<and> pp (ms ! i) > 0
                          then i else best) [0..<Suc k] 0 = hardBest ms"
    by (simp only: hardBest_def k)
  from hardBest_prefix [OF p0 this] show ?thesis
    by (simp add: k)
qed

lemma first_of_filter:
  "sorted xs \<Longrightarrow> b \<in> set xs \<Longrightarrow> P b \<Longrightarrow> (\<forall>i \<in> set xs. i < b \<longrightarrow> \<not> P i) \<Longrightarrow>
   \<exists>rest. filter P xs = (b::nat) # rest"
proof (induction xs)
  case Nil
  then show ?case by simp
next
  case (Cons a xs)
  show ?case
  proof (cases "a = b")
    case True
    with Cons.prems show ?thesis by simp
  next
    case False
    with Cons.prems have b: "b \<in> set xs" and "a \<le> b" by auto
    with False have "a < b" by simp
    with Cons.prems have na: "\<not> P a" by simp
    from Cons.prems have "sorted xs" "\<forall>i \<in> set xs. i < b \<longrightarrow> \<not> P i" by simp_all
    with b Cons.prems(3) have "\<exists>rest. filter P xs = b # rest" by (intro Cons.IH)
    with na show ?thesis by simp
  qed
qed

lemma hardBest_is_strongestWithPP:
  assumes ne: "ms \<noteq> []" and p0: "0 < pp (ms ! 0)"
  shows "strongestWithPP ms = Some (hardBest ms)"
proof -
  let ?cand = "filter (\<lambda>i. 0 < pp (ms ! i)) [0..<length ms]"
  let ?P = "\<lambda>i. list_all (\<lambda>j. move_power (ms ! j) \<le> move_power (ms ! i)) ?cand"
  let ?b = "hardBest ms"
  from hardBest_with_pp [OF ne p0]
  have b: "?b < length ms" "0 < pp (ms ! ?b)"
    "\<forall>i < length ms. 0 < pp (ms ! i) \<longrightarrow> move_power (ms ! i) \<le> move_power (ms ! ?b)"
    "\<forall>i < ?b. 0 < pp (ms ! i) \<longrightarrow> move_power (ms ! i) < move_power (ms ! ?b)"
    by simp_all
  have s: "sorted ?cand" by (simp add: sorted_wrt_filter)
  have m: "?b \<in> set ?cand" using b(1) b(2) by simp
  have pb: "?P ?b" using b(3) by (simp add: list_all_iff)
  have low: "\<forall>i \<in> set ?cand. i < ?b \<longrightarrow> \<not> ?P i"
  proof (intro ballI impI)
    fix i assume "i \<in> set ?cand" and "i < ?b"
    with b(4) have "move_power (ms ! i) < move_power (ms ! ?b)" by simp
    with m show "\<not> ?P i" by (auto simp: list_all_iff)
  qed
  from first_of_filter [of ?cand ?b ?P, OF s m pb low]
  obtain rest where "filter ?P ?cand = ?b # rest" by blast
  then show ?thesis by (simp add: strongestWithPP_def Let_def)
qed

lemma cpuChoice_hard:
  "dif \<noteq> 0 \<Longrightarrow>
   cpuChoice dif ms inp = (if randInt 1 100 (rand_hard inp) \<le> 85 then int (hardBest ms) else 3)"
  by (simp add: cpuChoice_def Let_def)

text \<open>
  Claim C3, at the input where the source departs from it. On Hard, Pikachu with Thunder
  (power 40) out of PP and Quick (power 40) at 20 PP: among the moves with PP left the
  first of highest power is Quick, at index 1. The loop starts from \<^verbatim>\<open>best = 0\<close> without
  looking at the PP of move 0, no later move has more power, and with a roll of 1 the CPU
  chooses 0, the move without PP. With this Pikachu in the seat of the CPU, the pass of the
  loop changes nothing and hands the turn back.
\<close>

theorem hard_policy_picks_exhausted_move:
  "map pp (moves (withPP 0 0 (assigned 0 40 60))) = [0, 20, 25]
   \<and> map move_power (moves (withPP 0 0 (assigned 0 40 60))) = [40, 40, 0]
   \<and> strongestWithPP (moves (withPP 0 0 (assigned 0 40 60))) = Some 1
   \<and> hardBest (moves (withPP 0 0 (assigned 0 40 60))) = 0
   \<and> randInt 1 100 (rand_hard (press 0 0 0)) = 1
   \<and> cpuChoice 1 (moves (withPP 0 0 (assigned 0 40 60))) (press 0 0 0) = 0
   \<and> turn id (withP2 (withPP 0 0 (assigned 0 220 60)) (exampleGame 1)) False (press 0 0 0)
       = Continue (withP2 (withPP 0 0 (assigned 0 220 60)) (exampleGame 1)) True"
  by code_simp

section \<open>What the battle loop leaves alone\<close>

lemma sameSession_refl: "sameSession g g"
  by (simp add: sameSession_def)

lemma sameSession_trans: "sameSession g g' \<Longrightarrow> sameSession g' g'' \<Longrightarrow> sameSession g g''"
  by (simp add: sameSession_def)

lemma startOfMatch_session: "sameSession g (startOfMatch g)"
  by (simp add: sameSession_def startOfMatch_def)

lemma attackMove_session: "sameSession g (attackMove fl g t i inp)"
  by (simp add: sameSession_def attackMove_def setActor_def setTarget_def actorOf_def
        targetOf_def Let_def)

lemma resolveMove_session: "sameSession g (resolveMove fl g t i inp)"
  using attackMove_session [of g fl True i inp] attackMove_session [of g fl False i inp]
  by (cases t) (simp_all add: sameSession_def resolveMove_def setActor_def actorOf_def Let_def)

lemma processAction_session:
  "processAction fl g t c inp = Resolved g' \<or> processAction fl g t c inp = Retreated g'
   \<Longrightarrow> sameSession g g'"
  using resolveMove_session
    [of g fl t "nat (moveIndex c (int (length (moves (pkmn (actorOf g t))))))" inp]
  by (auto simp: processAction_def Let_def sameSession_def setActor_def actorOf_def
        split: if_splits)

lemma turn_session:
  "turn fl g t inp = Continue g' t' \<or> turn fl g t inp = Return g' b \<Longrightarrow> sameSession g g'"
  by (auto simp: turn_def sameSession_def split: if_splits option.splits action.splits
        dest!: processAction_session [OF disjI1] processAction_session [OF disjI2])

lemma turn_return_False: "turn fl g t inp = Return g' b \<Longrightarrow> b = False"
  by (auto simp: turn_def split: if_splits option.splits action.splits)

lemma battleLoop_session:
  "battleLoop fl g t inps = Some (LoopExit g') \<or> battleLoop fl g t inps = Some (LoopReturn g' b)
   \<Longrightarrow> sameSession g g'"
proof (induction inps arbitrary: g t)
  case Nil
  then show ?case by (auto simp: sameSession_refl split: if_splits)
next
  case (Cons inp rest)
  show ?case
  proof (cases "\<not> fainted (pkmn (p1 g)) \<and> \<not> fainted (pkmn (p2 g))")
    case False
    with Cons.prems show ?thesis by (auto simp: sameSession_refl)
  next
    case True
    show ?thesis
    proof (cases "turn fl g t inp")
      case (Return g1 b1)
      with True Cons.prems have "g' = g1" by auto
      with Return show ?thesis using turn_session [of fl g t inp g1 True b1] by simp
    next
      case (Continue g1 t1)
      with True Cons.prems
      have "battleLoop fl g1 t1 rest = Some (LoopExit g') \<or>
            battleLoop fl g1 t1 rest = Some (LoopReturn g' b)" by simp
      then have "sameSession g1 g'" by (rule Cons.IH)
      moreover from Continue have "sameSession g g1"
        using turn_session [of fl g t inp g1 t1 b] by simp
      ultimately show ?thesis by (rule sameSession_trans [rotated])
    next
      case OutOfBounds
      with True Cons.prems show ?thesis by simp
    qed
  qed
qed

lemma battleLoop_exit_fainted:
  "battleLoop fl g t inps = Some (LoopExit g') \<Longrightarrow>
   fainted (pkmn (p1 g')) \<or> fainted (pkmn (p2 g'))"
proof (induction inps arbitrary: g t)
  case Nil
  then show ?case by (auto split: if_splits)
next
  case (Cons inp rest)
  then show ?case
    by (cases "turn fl g t inp") (auto split: if_splits)
qed

lemma battleLoop_return_False:
  "battleLoop fl g t inps = Some (LoopReturn g' b) \<Longrightarrow> b = False"
proof (induction inps arbitrary: g t)
  case Nil
  then show ?case by (auto split: if_splits)
next
  case (Cons inp rest)
  then show ?case
    by (cases "turn fl g t inp") (auto split: if_splits dest: turn_return_False)
qed

lemma endOfBattle_played: "gamesPlayed (endOfBattle g) = gamesPlayed g + 1"
  by (simp add: endOfBattle_def Let_def)

lemma half_screen: "c_div SCREEN_H 2 = 120"
  by (simp add: c_div_def SCREEN_H_def)

section \<open>The end of a match\<close>

text \<open>
  Claim C4. When the battle loop of a match that started in \<open>g\<close> is left in the state
  \<open>g'\<close> because a creature has fainted, \<^verbatim>\<open>runMatch\<close> returns with the counters of the end
  of the battle: the matches played are one more than in \<open>g\<close>; when both creatures have
  fainted neither win counter has changed; when one has, the win counter chosen by the
  human flag of the other seat (\<^verbatim>\<open>humanWins\<close> for a human, \<^verbatim>\<open>cpuWins\<close> otherwise) is one
  more than in \<open>g\<close> and the other win counter has not changed.
\<close>

theorem faint_outcome:
  assumes loop: "battleLoop fl (startOfMatch g) True inps = Some (LoopExit g')"
  shows "runMatch fl g inps ry = Some (Inr (endOfBattle g', ry < 120))
    \<and> (fainted (pkmn (p1 g')) \<or> fainted (pkmn (p2 g')))
    \<and> gamesPlayed (endOfBattle g') = gamesPlayed g + 1
    \<and> (fainted (pkmn (p1 g')) \<and> fainted (pkmn (p2 g')) \<longrightarrow>
         humanWins (endOfBattle g') = humanWins g \<and> cpuWins (endOfBattle g') = cpuWins g)
    \<and> (fainted (pkmn (p1 g')) \<and> \<not> fainted (pkmn (p2 g')) \<and> isHuman (p2 g) \<longrightarrow>
         humanWins (endOfBattle g') = humanWins g + 1 \<and> cpuWins (endOfBattle g') = cpuWins g)
    \<and> (fainted (pkmn (p1 g')) \<and> \<not> fainted (pkmn (p2 g')) \<and> \<not> isHuman (p2 g) \<longrightarrow>
         humanWins (endOfBattle g') = humanWins g \<and> cpuWins (endOfBattle g') = cpuWins g + 1)
    \<and> (\<not> fainted (pkmn (p1 g')) \<and> fainted (pkmn (p2 g')) \<and> isHuman (p1 g) \<longrightarrow>
         humanWins (endOfBattle g') = humanWins g + 1 \<and> cpuWins (endOfBattle g') = cpuWins g)
    \<and> (\<not> fainted (pkmn (p1 g')) \<and> fainted (pkmn (p2 g')) \<and> \<not> isHuman (p1 g) \<longrightarrow>
         humanWins (endOfBattle g') = humanWins g \<and> cpuWins (endOfBattle g') = cpuWins g + 1)"
proof -
  have "sameSession (startOfMatch g) g'"
    by (rule battleLoop_session [OF disjI1, OF loop])
  with startOfMatch_session [of g] have s: "sameSession g g'"
    by (rule sameSession_trans)
  have r: "runMatch fl g inps ry = Some (Inr (endOfBattle g', ry < 120))"
    using loop by (simp add: runMatch_def half_screen)
  have f: "fainted (pkmn (p1 g')) \<or> fainted (pkmn (p2 g'))"
    using loop by (rule battleLoop_exit_fainted)
  have p: "gamesPlayed (endOfBattle g') = gamesPlayed g + 1"
    using s by (simp add: endOfBattle_played sameSession_def)
  have w: "(fainted (pkmn (p1 g')) \<and> fainted (pkmn (p2 g')) \<longrightarrow>
         humanWins (endOfBattle g') = humanWins g \<and> cpuWins (endOfBattle g') = cpuWins g)
    \<and> (fainted (pkmn (p1 g')) \<and> \<not> fainted (pkmn (p2 g')) \<and> isHuman (p2 g) \<longrightarrow>
         humanWins (endOfBattle g') = humanWins g + 1 \<and> cpuWins (endOfBattle g') = cpuWins g)
    \<and> (fainted (pkmn (p1 g')) \<and> \<not> fainted (pkmn (p2 g')) \<and> \<not> isHuman (p2 g) \<longrightarrow>
         humanWins (endOfBattle g') = humanWins g \<and> cpuWins (endOfBattle g') = cpuWins g + 1)
    \<and> (\<not> fainted (pkmn (p1 g')) \<and> fainted (pkmn (p2 g')) \<and> isHuman (p1 g) \<longrightarrow>
         humanWins (endOfBattle g') = humanWins g + 1 \<and> cpuWins (endOfBattle g') = cpuWins g)
    \<and> (\<not> fainted (pkmn (p1 g')) \<and> fainted (pkmn (p2 g')) \<and> \<not> isHuman (p1 g) \<longrightarrow>
         humanWins (endOfBattle g') = humanWins g \<and> cpuWins (endOfBattle g') = cpuWins g + 1)"
    using s by (simp add: endOfBattle_def Let_def sameSession_def)
  from r f p w show ?thesis by blast
qed

lemma five_turns:
  "battleLoop id (startOfMatch (exampleGame 0)) True (replicate 5 (press 10 150 0))
     = Some (LoopExit afterFiveTurns)"
  by code_simp

text \<open>
  The human plays Thunder and the CPU answers with Ember; the third Thunder makes
  Charmander faint. The human seat wins the one match played.
\<close>

theorem faint_outcome_witness:
  "battleLoop id (startOfMatch (exampleGame 0)) True (replicate 5 (press 10 150 0))
     = Some (LoopExit afterFiveTurns)
   \<and> runMatch id (exampleGame 0) (replicate 5 (press 10 150 0)) 100
       = Some (Inr (endOfBattle afterFiveTurns, True))
   \<and> \<not> fainted (pkmn (p1 afterFiveTurns)) \<and> fainted (pkmn (p2 afterFiveTurns))
   \<and> isHuman (p1 (exampleGame 0))
   \<and> gamesPlayed (endOfBattle afterFiveTurns) = 1
   \<and> humanWins (endOfBattle afterFiveTurns) = 1
   \<and> cpuWins (endOfBattle afterFiveTurns) = 0"
proof -
  have a: "\<not> fainted (pkmn (p1 afterFiveTurns))" "fainted (pkmn (p2 afterFiveTurns))"
    "isHuman (p1 (exampleGame 0))" "gamesPlayed (exampleGame 0) = 0"
    "humanWins (exampleGame 0) = 0" "cpuWins (exampleGame 0) = 0"
    by (simp_all add: afterFiveTurns_def withP1_def withP2_def withHP_def withPP_def
          fainted_def exampleGame_def)
  from faint_outcome [OF five_turns, of 100] a five_turns show ?thesis by simp
qed

text \<open>
  Claim C2, as the source has it. The claim has the retreat count as a match played. In
  the source the retreat returns from inside the loop, before \<^verbatim>\<open>gamesPlayed++\<close>: after
  Thunder, Ember and the retreat of the human, Pikachu has gone from 25 to 33 health,
  \<^verbatim>\<open>runMatch\<close> has returned false and \<^verbatim>\<open>gamesPlayed\<close> is still 0.
\<close>

theorem retreat_counts_no_match_counterexample:
  "runMatch id (exampleGame 0) [press 10 150 0, press 0 0 0, press 200 200 0] 100
     = Some (Inr (afterRetreat, False))
   \<and> gamesPlayed (exampleGame 0) = 0
   \<and> gamesPlayed afterRetreat = 0
   \<and> gamesPlayed afterRetreat \<noteq> gamesPlayed (exampleGame 0) + 1"
  by code_simp

text \<open>
  Claim C2, amended. When the actor chooses the retreat, its health becomes the smaller of
  its health plus 8 and its maximum, nothing else changes, and \<^verbatim>\<open>runMatch\<close> returns false
  at once. Whenever \<^verbatim>\<open>runMatch\<close> returns from inside the loop, no counter of the session has
  changed: a retreat credits no win and is not counted as a match played.
\<close>

theorem retreat_outcome:
  "(3 \<le> length (moves (pkmn (actorOf g t))) \<and> chooseAction g t inp = Some 3 \<longrightarrow>
      turn fl g t inp =
        Return (setActor g t ((actorOf g t)\<lparr>pkmn := (pkmn (actorOf g t))
          \<lparr>hp := min (hp (pkmn (actorOf g t)) + 8) (maxHP (pkmn (actorOf g t)))\<rparr>\<rparr>)) False)
   \<and> (3 \<le> length (moves (pkmn (actorOf g t))) \<and> chooseAction g t inp = Some 3
       \<and> 0 < hp (pkmn (p1 g)) \<and> 0 < hp (pkmn (p2 g)) \<longrightarrow>
      battleLoop fl g t (inp # rest) =
        Some (LoopReturn (setActor g t ((actorOf g t)\<lparr>pkmn := (pkmn (actorOf g t))
          \<lparr>hp := min (hp (pkmn (actorOf g t)) + 8) (maxHP (pkmn (actorOf g t)))\<rparr>\<rparr>)) False))
   \<and> (battleLoop fl (startOfMatch g0) True inps = Some (LoopReturn g' b) \<longrightarrow>
        runMatch fl g0 inps ry = Some (Inr (g', False))
        \<and> gamesPlayed g' = gamesPlayed g0 \<and> humanWins g' = humanWins g0
        \<and> cpuWins g' = cpuWins g0)"
proof (intro conjI impI)
  assume "3 \<le> length (moves (pkmn (actorOf g t))) \<and> chooseAction g t inp = Some 3"
  then show "turn fl g t inp =
        Return (setActor g t ((actorOf g t)\<lparr>pkmn := (pkmn (actorOf g t))
          \<lparr>hp := min (hp (pkmn (actorOf g t)) + 8) (maxHP (pkmn (actorOf g t)))\<rparr>\<rparr>)) False"
    by (simp add: turn_of_retreat)
next
  assume "3 \<le> length (moves (pkmn (actorOf g t))) \<and> chooseAction g t inp = Some 3
       \<and> 0 < hp (pkmn (p1 g)) \<and> 0 < hp (pkmn (p2 g))"
  then show "battleLoop fl g t (inp # rest) =
        Some (LoopReturn (setActor g t ((actorOf g t)\<lparr>pkmn := (pkmn (actorOf g t))
          \<lparr>hp := min (hp (pkmn (actorOf g t)) + 8) (maxHP (pkmn (actorOf g t)))\<rparr>\<rparr>)) False)"
    by (simp add: turn_of_retreat fainted_def)
next
  assume loop: "battleLoop fl (startOfMatch g0) True inps = Some (LoopReturn g' b)"
  then have b: "b = False" by (rule battleLoop_return_False)
  have "sameSession (startOfMatch g0) g'"
    by (rule battleLoop_session [OF disjI2, OF loop])
  with startOfMatch_session [of g0] have s: "sameSession g0 g'"
    by (rule sameSession_trans)
  show "runMatch fl g0 inps ry = Some (Inr (g', False))"
    using loop b by (simp add: runMatch_def)
  show "gamesPlayed g' = gamesPlayed g0" using s by (simp add: sameSession_def)
  show "humanWins g' = humanWins g0" using s by (simp add: sameSession_def)
  show "cpuWins g' = cpuWins g0" using s by (simp add: sameSession_def)
qed

lemma three_turns:
  "battleLoop id (startOfMatch (exampleGame 0)) True
     [press 10 150 0, press 0 0 0, press 200 200 0]
     = Some (LoopReturn afterRetreat False)"
  by code_simp

lemma retreat_pressed:
  "3 \<le> length (moves (pkmn (actorOf afterTwoTurns True)))
   \<and> chooseAction afterTwoTurns True (press 200 200 0) = Some 3"
  by code_simp

text \<open>The human retreats on the third turn, with Pikachu at 25 of 40 health.\<close>

theorem retreat_outcome_witness:
  "(3 \<le> length (moves (pkmn (actorOf afterTwoTurns True)))
    \<and> chooseAction afterTwoTurns True (press 200 200 0) = Some 3
    \<and> 0 < hp (pkmn (p1 afterTwoTurns)) \<and> 0 < hp (pkmn (p2 afterTwoTurns))
    \<and> battleLoop id (startOfMatch (exampleGame 0)) True
        [press 10 150 0, press 0 0 0, press 200 200 0] = Some (LoopReturn afterRetreat False))
   \<and> turn id afterTwoTurns True (press 200 200 0) = Return afterRetreat False
   \<and> battleLoop id afterTwoTurns True [press 200 200 0] = Some (LoopReturn afterRetreat False)
   \<and> hp (pkmn (p1 afterTwoTurns)) = 25 \<and> hp (pkmn (p1 afterRetreat)) = 33
   \<and> runMatch id (exampleGame 0) [press 10 150 0, press 0 0 0, press 200 200 0] 100
       = Some (Inr (afterRetreat, False))
   \<and> gamesPlayed afterRetreat = 0 \<and> humanWins afterRetreat = 0 \<and> cpuWins afterRetreat = 0"
proof -
  have e: "setActor afterTwoTurns True ((actorOf afterTwoTurns True)
        \<lparr>pkmn := (pkmn (actorOf afterTwoTurns True))
          \<lparr>hp := min (hp (pkmn (actorOf afterTwoTurns True)) + 8)
                   (maxHP (pkmn (actorOf afterTwoTurns True)))\<rparr>\<rparr>)
      = afterRetreat"
    by code_simp
  have h: "hp (pkmn (p1 afterTwoTurns)) = 25" "hp (pkmn (p1 afterRetreat)) = 33"
    "0 < hp (pkmn (p1 afterTwoTurns))" "0 < hp (pkmn (p2 afterTwoTurns))"
    by code_simp+
  have z: "gamesPlayed (exampleGame 0) = 0" "humanWins (exampleGame 0) = 0"
    "cpuWins (exampleGame 0) = 0"
    by (simp_all add: exampleGame_def)
  from retreat_outcome [of afterTwoTurns True "press 200 200 0" id "[]" "exampleGame 0"
      "[press 10 150 0, press 0 0 0, press 200 200 0]" afterRetreat False 100]
    retreat_pressed three_turns e h z
  show ?thesis by simp
qed

section \<open>A move without PP\<close>







section \<open>The PP of an attack\<close>

lemma attackMove_moves:
  "moves (pkmn (actorOf (attackMove fl g t i inp) t)) =
     (if accuracy (moves (pkmn (actorOf g t)) ! i) < randInt 1 100 (rand_acc inp)
      then moves (pkmn (actorOf g t))
      else (moves (pkmn (actorOf g t)))
             [i := (moves (pkmn (actorOf g t)) ! i)
                \<lparr>pp := pp (moves (pkmn (actorOf g t)) ! i) - 1\<rparr>])"
  by (cases t)
     (simp_all add: attackMove_def usePP_def setActor_def setTarget_def actorOf_def
        targetOf_def Let_def)

lemma attackMove_target_moves:
  "moves (pkmn (targetOf (attackMove fl g t i inp) t)) = moves (pkmn (targetOf g t))"
  by (cases t)
     (simp_all add: attackMove_def applyDamage_def setActor_def setTarget_def actorOf_def
        targetOf_def Let_def)

lemma resolveMove_attack_moves:
  assumes "move_power (moves (pkmn (actorOf g t)) ! i) \<noteq> 0"
    and "0 < pp (moves (pkmn (actorOf g t)) ! i)"
  shows "moves (pkmn (actorOf (resolveMove fl g t i inp) t))
           = moves (pkmn (actorOf (attackMove fl g t i inp) t))
       \<and> moves (pkmn (targetOf (resolveMove fl g t i inp) t))
           = moves (pkmn (targetOf (attackMove fl g t i inp) t))"
  using assms
  by (cases t) (simp_all add: resolveMove_def setActor_def actorOf_def targetOf_def Let_def)

text \<open>
  Claim C7. When the actor chooses an attack move that has PP left, the turn passes to the
  other combatant, and the moves of the actor afterwards depend on the accuracy roll alone:
  when the roll is above the accuracy of the move they are as before, otherwise the PP of
  the chosen move is one less and every other move, and every other field of the chosen
  move, is as before. The second case is the same whether the projectile hits or leaves
  the screen. The moves of the target are as before in both cases. The pass is one the
  source defines: the actor has its three moves and the chosen action is the id of a
  button.
\<close>

theorem attack_pp_consumption:
  assumes len: "3 \<le> length (moves (pkmn (actorOf g t)))"
    and ch: "chooseAction g t inp = Some c" and c3: "c \<noteq> 3" and c4: "c < 4"
    and pw: "move_power (moves (pkmn (actorOf g t)) ! nat c) \<noteq> 0"
    and pos: "0 < pp (moves (pkmn (actorOf g t)) ! nat c)"
  shows "\<exists>g'. turn fl g t inp = Continue g' (\<not> t)
    \<and> moves (pkmn (actorOf g' t)) =
        (if accuracy (moves (pkmn (actorOf g t)) ! nat c) < randInt 1 100 (rand_acc inp)
         then moves (pkmn (actorOf g t))
         else (moves (pkmn (actorOf g t)))
                [nat c := (moves (pkmn (actorOf g t)) ! nat c)
                   \<lparr>pp := pp (moves (pkmn (actorOf g t)) ! nat c) - 1\<rparr>])
    \<and> moves (pkmn (targetOf g' t)) = moves (pkmn (targetOf g t))"
proof -
  let ?g' = "resolveMove fl g t (nat c) inp"
  have t: "turn fl g t inp = Continue ?g' (\<not> t)"
    using len ch c3 c4 by (rule turn_of_move)
  note r = resolveMove_attack_moves [OF pw pos, of fl inp]
  from t r show ?thesis
    by (simp add: attackMove_moves attackMove_target_moves)
qed

text \<open>
  Thunder (accuracy 95, 15 PP) with a roll of 1 hits and has 14 PP afterwards. With a roll
  of 100 it misses and the game is as before. With a roll of 1 and Charmander drawn below
  the path, the projectile leaves the screen: Charmander keeps its 45 health and Thunder
  has 14 PP all the same.
\<close>

theorem attack_pp_consumption_witness:
  "(3 \<le> length (moves (pkmn (actorOf (exampleGame 0) True)))
    \<and> chooseAction (exampleGame 0) True (press 10 150 0) = Some 0
    \<and> (0::int) \<noteq> 3 \<and> (0::int) < 4
    \<and> move_power (moves (pkmn (actorOf (exampleGame 0) True)) ! nat 0) = 40
    \<and> pp (moves (pkmn (actorOf (exampleGame 0) True)) ! nat 0) = 15
    \<and> accuracy (moves (pkmn (actorOf (exampleGame 0) True)) ! nat 0) = 95
    \<and> randInt 1 100 (rand_acc (press 10 150 0)) = 1)
   \<and> (\<exists>g'. turn id (exampleGame 0) True (press 10 150 0) = Continue g' False
         \<and> map pp (moves (pkmn (p1 g'))) = [14, 20, 25]
         \<and> map pp (moves (pkmn (p2 g'))) = [15, 25, 25])
   \<and> randInt 1 100 (rand_acc (press 10 150 99)) = 100
   \<and> turn id (exampleGame 0) True (press 10 150 99) = Continue (exampleGame 0) False
   \<and> projectile True 88 84 (pkmn (p2 (exampleGame 0)))
   \<and> \<not> projectile True 88 84 (pkmn (p2 charmanderAway))
   \<and> turn id charmanderAway True (press 10 150 0)
       = Continue (withP1 (withPP 0 14 (assigned 0 40 60)) charmanderAway) False"
proof -
  have h: "3 \<le> length (moves (pkmn (actorOf (exampleGame 0) True)))"
    "chooseAction (exampleGame 0) True (press 10 150 0) = Some 0"
    "move_power (moves (pkmn (actorOf (exampleGame 0) True)) ! nat 0) = 40"
    "pp (moves (pkmn (actorOf (exampleGame 0) True)) ! nat 0) = 15"
    "accuracy (moves (pkmn (actorOf (exampleGame 0) True)) ! nat 0) = 95"
    "randInt 1 100 (rand_acc (press 10 150 0)) = 1"
    by code_simp+
  have m: "moves (pkmn (actorOf (exampleGame 0) True)) =
      [mkMove ''Thunder'' 40 95 15, mkMove ''Quick'' 40 100 20, mkMove ''Growl'' 0 100 25]"
    "moves (pkmn (targetOf (exampleGame 0) True)) =
      [mkMove ''Ember'' 40 95 15, mkMove ''Scratch'' 35 100 25, mkMove ''Tail'' 0 100 25]"
    by code_simp+
  have v: "randInt 1 100 (rand_acc (press 10 150 99)) = 100"
    "turn id (exampleGame 0) True (press 10 150 99) = Continue (exampleGame 0) False"
    "projectile True 88 84 (pkmn (p2 (exampleGame 0)))"
    "\<not> projectile True 88 84 (pkmn (p2 charmanderAway))"
    "turn id charmanderAway True (press 10 150 0)
       = Continue (withP1 (withPP 0 14 (assigned 0 40 60)) charmanderAway) False"
    by code_simp+
  from attack_pp_consumption [OF h(1) h(2), of id] h(3) h(4)
  obtain g' where g': "turn id (exampleGame 0) True (press 10 150 0) = Continue g' (\<not> True)"
    "moves (pkmn (actorOf g' True)) =
        (if accuracy (moves (pkmn (actorOf (exampleGame 0) True)) ! nat 0)
              < randInt 1 100 (rand_acc (press 10 150 0))
         then moves (pkmn (actorOf (exampleGame 0) True))
         else (moves (pkmn (actorOf (exampleGame 0) True)))
                [nat 0 := (moves (pkmn (actorOf (exampleGame 0) True)) ! nat 0)
                   \<lparr>pp := pp (moves (pkmn (actorOf (exampleGame 0) True)) ! nat 0) - 1\<rparr>])"
    "moves (pkmn (targetOf g' True)) = moves (pkmn (targetOf (exampleGame 0) True))"
    by auto
  have "map pp (moves (pkmn (p1 g'))) = [14, 20, 25]"
    using g'(2) unfolding h(5) h(6) m by (simp add: actorOf_def mkMove_def)
  moreover have "map pp (moves (pkmn (p2 g'))) = [15, 25, 25]"
    using g'(3) unfolding m by (simp add: targetOf_def mkMove_def)
  ultimately have "\<exists>g'. turn id (exampleGame 0) True (press 10 150 0) = Continue g' False
         \<and> map pp (moves (pkmn (p1 g'))) = [14, 20, 25]
         \<and> map pp (moves (pkmn (p2 g'))) = [15, 25, 25]"
    using g'(1) by auto
  with h v show ?thesis by simp
qed

section \<open>The damage of a hit\<close>

lemma c_div_two: "0 \<le> a \<Longrightarrow> c_div a 2 = a div 2"
  by (simp add: c_div_def)

text \<open>
  Claim C5. For a target whose health is between 0 and its maximum and an incoming amount
  that is not negative (\<^verbatim>\<open>computeDamage\<close> gives 1 or more), the health after the hit is
  between 0 and the maximum. It is the health before less the amount, or less
  \<open>(amount + 1) div 2\<close> when the target was defending, and 0 when that is negative. The
  defending flag is false afterwards, so the next hit is taken in full.
\<close>

theorem applyDamage_bounds_and_defend:
  assumes h0: "0 \<le> hp t" and hm: "hp t \<le> maxHP t" and am: "0 \<le> amount"
  shows "0 \<le> hp (applyDamage amount t)
    \<and> hp (applyDamage amount t) \<le> maxHP (applyDamage amount t)
    \<and> hp (applyDamage amount t) =
        max 0 (hp t - (if defending t then (amount + 1) div 2 else amount))
    \<and> \<not> defending (applyDamage amount t)
    \<and> hp (applyDamage amount2 (applyDamage amount t)) =
        max 0 (hp (applyDamage amount t) - amount2)"
proof -
  have d: "c_div (amount + 1) 2 = (amount + 1) div 2"
    using am by (simp add: c_div_two)
  have nn: "0 \<le> (amount + 1) div 2" using am by simp
  have a: "hp (applyDamage amount t) =
        max 0 (hp t - (if defending t then (amount + 1) div 2 else amount))"
    by (simp add: applyDamage_def Let_def d max_def)
  have b: "\<not> defending (applyDamage amount t)"
    by (simp add: applyDamage_def Let_def)
  have c: "maxHP (applyDamage amount t) = maxHP t"
    by (simp add: applyDamage_def Let_def)
  have e: "hp (applyDamage amount2 (applyDamage amount t)) =
        max 0 (hp (applyDamage amount t) - amount2)"
    using b by (simp add: applyDamage_def [of amount2] Let_def max_def)
  have k: "0 \<le> (if defending t then (amount + 1) div 2 else amount)"
  proof (cases "defending t")
    case True
    with nn show ?thesis by (simp only: if_True)
  next
    case False
    with am show ?thesis by (simp only: if_False)
  qed
  have "0 \<le> hp (applyDamage amount t)" unfolding a by simp
  moreover have "hp (applyDamage amount t) \<le> maxHP (applyDamage amount t)"
    unfolding a c using h0 hm k by linarith
  ultimately show ?thesis using a b e by simp
qed

text \<open>
  A defending Charmander at 45 health takes a hit of 17 as 9; the flag is cleared and the
  next hit of 17 is taken in full, from 36 to 19. Four hits leave it at 0, not below. In
  the game, Thunder does 16 to Charmander and 8 to a defending Charmander.
\<close>

theorem applyDamage_bounds_and_defend_witness:
  "(0 \<le> hp ((assigned 1 220 60)\<lparr>defending := True\<rparr>)
    \<and> hp ((assigned 1 220 60)\<lparr>defending := True\<rparr>)
        \<le> maxHP ((assigned 1 220 60)\<lparr>defending := True\<rparr>)
    \<and> (0::int) \<le> 17)
   \<and> hp (applyDamage 17 ((assigned 1 220 60)\<lparr>defending := True\<rparr>)) = 36
   \<and> maxHP (applyDamage 17 ((assigned 1 220 60)\<lparr>defending := True\<rparr>)) = 45
   \<and> \<not> defending (applyDamage 17 ((assigned 1 220 60)\<lparr>defending := True\<rparr>))
   \<and> hp (applyDamage 17 (applyDamage 17 ((assigned 1 220 60)\<lparr>defending := True\<rparr>))) = 19
   \<and> hp (applyDamage 17 (applyDamage 17 (applyDamage 17 (applyDamage 17
        ((assigned 1 220 60)\<lparr>defending := True\<rparr>))))) = 0
   \<and> turn id (exampleGame 0) True (press 10 150 0)
       = Continue (withP2 (withHP 29 (assigned 1 220 60))
           (withP1 (withPP 0 14 (assigned 0 40 60)) (exampleGame 0))) False
   \<and> turn id (withP2 ((assigned 1 220 60)\<lparr>defending := True\<rparr>) (exampleGame 0)) True
        (press 10 150 0)
       = Continue (withP2 (withHP 37 (assigned 1 220 60))
           (withP1 (withPP 0 14 (assigned 0 40 60)) (exampleGame 0))) False"
proof -
  let ?t = "(assigned 1 220 60)\<lparr>defending := True\<rparr>"
  have h: "0 \<le> hp ?t" "hp ?t \<le> maxHP ?t" "hp ?t = 45" "maxHP ?t = 45" "defending ?t"
    by code_simp+
  have z: "(0::int) \<le> 17" by simp
  have m: "maxHP (applyDamage 17 ?t) = 45"
    and l: "hp (applyDamage 17 (applyDamage 17 (applyDamage 17 (applyDamage 17 ?t)))) = 0"
    by code_simp+
  have v: "turn id (exampleGame 0) True (press 10 150 0)
       = Continue (withP2 (withHP 29 (assigned 1 220 60))
           (withP1 (withPP 0 14 (assigned 0 40 60)) (exampleGame 0))) False"
    "turn id (withP2 ?t (exampleGame 0)) True (press 10 150 0)
       = Continue (withP2 (withHP 37 (assigned 1 220 60))
           (withP1 (withPP 0 14 (assigned 0 40 60)) (exampleGame 0))) False"
    by code_simp+
  from applyDamage_bounds_and_defend [OF h(1) h(2) z, of 17] h m l v
  show ?thesis by simp
qed

end
